theory Spec2Isabelle
  imports Complex_Main "HOL-Library.Multiset"
begin

section \<open>The playback engine of \<open>player.hpp\<close>\<close>

text \<open>
  The engine of \<^verbatim>\<open>src/player.hpp\<close> is embedded function by function: \<^verbatim>\<open>tempo\<close> (the
  tempo mapper), \<^verbatim>\<open>instruction\<close> and \<^verbatim>\<open>player\<close> (scheduler and mixer). The score-side
  volumes of \<^verbatim>\<open>src/notation_volume.hpp\<close> are the datatype \<open>notation_volume\<close>.

  Every \<^verbatim>\<open>double\<close> of the source is a \<open>real\<close> here: sums, differences and quotients are
  exact, there is no rounding, no NaN and no infinity. The statements below are statements
  about this idealised arithmetic, except where they name \<open>tempo_advance_double\<close>: for
  the progress of the tempo mapper, which rounding decides, \<^verbatim>\<open>tempo::advance\<close> is embedded
  a second time with its sums and differences rounded to doubles.

  A member function that mutates its object takes the object and gives back an
  \<open>outcome\<close>: it returns (with its value and the object as it is afterwards), it throws
  (with the exception and the object as the throw leaves it), it is stopped by a failed
  \<^verbatim>\<open>assert\<close>, or it runs into behaviour the language leaves undefined.
\<close>

subsection \<open>Errors and outcomes\<close>

text \<open>
  \<^verbatim>\<open>err::end_of_song\<close> carries a \<^verbatim>\<open>reason\<close>; \<^verbatim>\<open>err::invalid_beat\<close> carries a
  \<^verbatim>\<open>beat_val\<close> and a \<^verbatim>\<open>reason\<close>.
\<close>

datatype error =
    end_of_song string
  | invalid_beat real string

datatype ('a, 's) outcome =
    Returns 'a 's
  | Throws error 's
  | Assert_failed
  | Undefined

subsection \<open>Cursors, periods, samples\<close>

text \<open>
  Modelled from the spec: \<^verbatim>\<open>timing::time\<close> and \<^verbatim>\<open>timing::period\<close> are declared in
  \<^verbatim>\<open>player_timing.hpp\<close>, which is not among the sources. A cursor is the 4-tuple
  \<open>(t, dt, beat, dbeat)\<close>; the two-argument constructor used by \<^verbatim>\<open>instruction\<close> sets
  \<open>t\<close> and \<open>beat\<close>. A period is a pair of cursors (the source's field \<^verbatim>\<open>end\<close> is
  \<open>end_time\<close> here).
\<close>

record time =
  t :: real
  dt :: real
  beat :: real
  dbeat :: real

definition time2 :: "real \<Rightarrow> real \<Rightarrow> time" where
  "time2 secs b = \<lparr>t = secs, dt = 0, beat = b, dbeat = 0\<rparr>"

definition time0 :: time where
  "time0 = \<lparr>t = 0, dt = 0, beat = 0, dbeat = 0\<rparr>"

record period =
  start :: time
  end_time :: time

text \<open>
  Modelled from the spec: \<^verbatim>\<open>sample\<close> (\<^verbatim>\<open>player_sample.hpp\<close>) and the stereo volume
  returned by \<^verbatim>\<open>get_volume\<close> (\<^verbatim>\<open>player_volume.hpp\<close>) are not among the sources. Both are
  pairs of a left and a right channel; a sample is summable by channel, and
  \<^verbatim>\<open>sample(0, 0)\<close> is silence.
\<close>

record stereo =
  left :: real
  right :: real

type_synonym sample = stereo
type_synonym stereo_volume = stereo

definition sample_add :: "sample \<Rightarrow> sample \<Rightarrow> sample" where
  "sample_add a b = \<lparr>left = left a + left b, right = right a + right b\<rparr>"

definition silence :: sample where
  "silence = \<lparr>left = 0, right = 0\<rparr>"

subsection \<open>Timing segments\<close>

text \<open>
  Modelled from the spec: \<^verbatim>\<open>notation::timing::timing\<close> (\<^verbatim>\<open>notation.hpp\<close>) is not among
  the sources. The tempo mapper reads the field \<^verbatim>\<open>duration\<close> and calls the virtual
  functions \<^verbatim>\<open>full_time()\<close>, \<^verbatim>\<open>beat_to_time\<close> and \<^verbatim>\<open>time_to_beat\<close>; a segment is the
  record of the four.
\<close>

record timing =
  duration :: real
  full_time :: real
  beat_to_time :: "real \<Rightarrow> real"
  time_to_beat :: "real \<Rightarrow> real"

text \<open>
  Modelled from the spec: a constant-tempo segment of \<open>d\<close> beats over \<open>ft\<close> seconds
  (the concrete segment classes are not among the sources) maps beats to seconds and
  back linearly.
\<close>

definition constant_timing :: "real \<Rightarrow> real \<Rightarrow> timing" where
  "constant_timing d ft =
     \<lparr>duration = d, full_time = ft,
      beat_to_time = (\<lambda>b. b * ft / d),
      time_to_beat = (\<lambda>s. s * d / ft)\<rparr>"

subsection \<open>The tempo mapper\<close>

record tempo =
  timings :: "timing list"
  now :: time
  global :: time

text \<open>\<^verbatim>\<open>tempo()\<close>: no segment, both cursors at zero.\<close>

definition tempo_init :: tempo where
  "tempo_init = \<lparr>timings = [], now = time0, global = time0\<rparr>"

definition add_timing :: "timing \<Rightarrow> tempo \<Rightarrow> tempo" where
  "add_timing seg s = s\<lparr>timings := timings s @ [seg]\<rparr>"

text \<open>
  Lines 96 to 100 of \<^verbatim>\<open>tempo::advance\<close>, shared by the path that stays in the front
  segment and the path that has switched to the next one: \<open>seg\<close> is the segment \<^verbatim>\<open>t\<close>
  points to and \<open>old\<close> the snapshot of \<^verbatim>\<open>now\<close>.
\<close>

definition set_beats :: "timing \<Rightarrow> time \<Rightarrow> tempo \<Rightarrow> tempo" where
  "set_beats seg old s =
     (let nb = time_to_beat seg (t (now s));
          db = nb - beat old
      in s\<lparr>now := (now s)\<lparr>beat := nb, dbeat := db\<rparr>,
            global := (global s)\<lparr>beat := beat (global s) + db, dbeat := db\<rparr>\<rparr>)"

text \<open>
  \<^verbatim>\<open>tempo::advance\<close>. The cursors are moved before the front segment is looked at, and
  the front segment is popped before the queue is tested, so the throw leaves the moved
  cursors and the empty queue behind. \<^verbatim>\<open>timings.front()\<close> on an empty list is undefined
  behaviour.
\<close>

definition tempo_advance :: "real \<Rightarrow> tempo \<Rightarrow> (unit, tempo) outcome" where
  "tempo_advance d s =
     (if \<not> 0 \<le> d then Assert_failed
      else
        let old = now s;
            s1 = s\<lparr>global := (global s)\<lparr>t := t (global s) + d, dt := d\<rparr>,
                   now := (now s)\<lparr>t := t (now s) + d, dt := d\<rparr>\<rparr>
        in case timings s1 of
             [] \<Rightarrow> Undefined
           | seg # rest \<Rightarrow>
               if full_time seg \<le> t (now s1) then
                 let rest_of_t = full_time seg - t old;
                     rest_of_b = duration seg - beat old;
                     s2 = s1\<lparr>now := (now s1)\<lparr>t := d - rest_of_t\<rparr>, timings := rest\<rparr>;
                     old' = old\<lparr>beat := - rest_of_b\<rparr>
                 in case rest of
                      [] \<Rightarrow> Throws (end_of_song ''Ran out of timing specs!'') s2
                    | seg' # _ \<Rightarrow> Returns () (set_beats seg' old' s2)
               else Returns () (set_beats seg old s1))"

text \<open>
  The loop of \<^verbatim>\<open>tempo::beat_to_time\<close> over the queue: \<open>acc\<close> is the local \<^verbatim>\<open>t\<close> and
  \<open>b\<close> the parameter \<^verbatim>\<open>beat\<close>, which the loop decrements. Falling out of the loop
  throws with the value \<^verbatim>\<open>beat\<close> has by then.
\<close>

fun walk :: "timing list \<Rightarrow> real \<Rightarrow> real \<Rightarrow> error + real" where
  "walk [] acc b = Inl (invalid_beat b ''Beat past end of song.'')"
| "walk (l # ls) acc b =
     (if b \<le> duration l then Inr (acc + beat_to_time l b)
      else walk ls (acc + full_time l) (b - duration l))"

text \<open>
  \<^verbatim>\<open>tempo::beat_to_time\<close> is not a \<^verbatim>\<open>const\<close> member, so it is given the object and hands
  it back.
\<close>

definition tempo_beat_to_time :: "real \<Rightarrow> tempo \<Rightarrow> (real, tempo) outcome" where
  "tempo_beat_to_time b s =
     (if b < beat (global s) then Throws (invalid_beat b ''Beat in the past.'') s
      else
        case walk (timings s) (t (global s)) (b - (beat (global s) - beat (now s))) of
          Inl e \<Rightarrow> Throws e s
        | Inr secs \<Rightarrow> Returns secs s)"

definition tempo_get :: "tempo \<Rightarrow> time" where
  "tempo_get s = global s"

subsection \<open>Score-side volumes\<close>

text \<open>
  \<^verbatim>\<open>src/notation_volume.hpp\<close>: a score-side volume is \<^verbatim>\<open>simple\<close> (left, right) or
  \<^verbatim>\<open>fade\<close> (start left, start right, end left, end right); both \<^verbatim>\<open>create\<close> functions
  default every argument to 0.7.
\<close>

datatype notation_volume =
    simple real real
  | fade real real real real

definition simple_create_default :: notation_volume where
  "simple_create_default = simple (7 / 10) (7 / 10)"

definition fade_create_default :: notation_volume where
  "fade_create_default = fade (7 / 10) (7 / 10) (7 / 10) (7 / 10)"

subsection \<open>Notes and instructions\<close>

text \<open>
  Modelled from the spec: \<^verbatim>\<open>notation::note\<close> and \<^verbatim>\<open>notation::song\<close> (\<^verbatim>\<open>notation.hpp\<close>)
  are not among the sources. A note has a pitch, an instrument and a volume descriptor
  and a \<^verbatim>\<open>duration\<close> with a \<^verbatim>\<open>start\<close> beat and a \<^verbatim>\<open>duration\<close> in beats (here
  \<open>note_start\<close> and \<open>note_duration\<close>); the score-side pitch and instrument
  descriptors are left abstract. A song has its segments in order and its notes.
\<close>

record ('p, 'i) notation_note =
  note_pitch :: 'p
  note_instrument :: 'i
  note_volume :: notation_volume
  note_start :: real
  note_duration :: real

record ('p, 'i) song =
  song_timings :: "timing list"
  song_notes :: "('p, 'i) notation_note list"

text \<open>
  An engine-side descriptor is the function the mixer calls on it: \<^verbatim>\<open>get_pitch\<close>,
  \<^verbatim>\<open>get_sample\<close>, \<^verbatim>\<open>get_volume\<close>. (An instrument that keeps a phase between calls is
  outside this model.)
\<close>

record instruction =
  pitch :: "period \<Rightarrow> time \<Rightarrow> real"
  instrument :: "period \<Rightarrow> time \<Rightarrow> stereo_volume \<Rightarrow> real \<Rightarrow> sample"
  volume :: "period \<Rightarrow> time \<Rightarrow> stereo_volume"
  bounds :: period

text \<open>
  The three \<^verbatim>\<open>factory\<close> functions (\<^verbatim>\<open>player_pitch.hpp\<close>, \<^verbatim>\<open>player_instrument.hpp\<close>,
  \<^verbatim>\<open>player_volume.hpp\<close>) are not among the sources; they are parameters.
\<close>

record ('p, 'i) factories =
  pitch_factory :: "'p \<Rightarrow> period \<Rightarrow> time \<Rightarrow> real"
  instrument_factory :: "'i \<Rightarrow> period \<Rightarrow> time \<Rightarrow> stereo_volume \<Rightarrow> real \<Rightarrow> sample"
  volume_factory :: "notation_volume \<Rightarrow> period \<Rightarrow> time \<Rightarrow> stereo_volume"

definition instruction_ctor ::
  "('p, 'i) factories \<Rightarrow> ('p, 'i) notation_note \<Rightarrow> real \<Rightarrow> real \<Rightarrow> instruction" where
  "instruction_ctor fs n start_t end_t =
     \<lparr>pitch = pitch_factory fs (note_pitch n),
      instrument = instrument_factory fs (note_instrument n),
      volume = volume_factory fs (note_volume n),
      bounds = \<lparr>start = time2 start_t (note_start n),
                end_time = time2 end_t (note_start n + note_duration n)\<rparr>\<rparr>"

subsection \<open>The piano roll\<close>

text \<open>
  \<^verbatim>\<open>piano_roll\<close> is a \<^verbatim>\<open>std::priority_queue\<close> whose comparison \<^verbatim>\<open>ptrcmp\<close> is
  \<open>a.bounds.start.beat > b.bounds.start.beat\<close>, so its top is an instruction of least start
  beat. It is kept here as the list of its elements in ascending start beat: \<open>push\<close>
  inserts in order, \<open>top\<close> is the head, \<open>pop\<close> drops the head. The library's
  \<^verbatim>\<open>push_heap\<close> moves a new element up only past elements that \<^verbatim>\<open>ptrcmp\<close> puts after it,
  so of several instructions with the same start beat the one pushed first stays on top;
  \<open>push\<close> here does the same and inserts behind the instructions of equal start beat.
  (After a pop the library's order among equal start beats is that of its heap; the list
  keeps the order of the pushes. No property below depends on it.)
\<close>

type_synonym piano_roll = "instruction list"

definition start_beat :: "instruction \<Rightarrow> real" where
  "start_beat i = beat (start (bounds i))"

definition ptrcmp :: "instruction \<Rightarrow> instruction \<Rightarrow> bool" where
  "ptrcmp a b = (beat (start (bounds a)) > beat (start (bounds b)))"

fun roll_push :: "instruction \<Rightarrow> piano_roll \<Rightarrow> piano_roll" where
  "roll_push i [] = [i]"
| "roll_push i (j # q) = (if ptrcmp j i then i # j # q else j # roll_push i q)"

definition roll_empty :: "piano_roll \<Rightarrow> bool" where
  "roll_empty q = (q = [])"

subsection \<open>The player\<close>

text \<open>
  The member \<^verbatim>\<open>now\<close> of \<^verbatim>\<open>player\<close>, its tempo mapper, is \<open>player_now\<close> here, and
  \<^verbatim>\<open>sound_\<close> is \<open>sound_field\<close>.
\<close>

record player =
  player_now :: tempo
  roll :: piano_roll
  active :: "instruction list"
  sound_field :: sample

text \<open>Sequencing of calls on one object: the first outcome that is not a return ends the run.\<close>

fun and_then ::
  "('a, 's) outcome \<Rightarrow> ('a \<Rightarrow> 's \<Rightarrow> ('b, 's) outcome) \<Rightarrow> ('b, 's) outcome" where
  "and_then (Returns x s) k = k x s"
| "and_then (Throws e s) k = Throws e s"
| "and_then Assert_failed k = Assert_failed"
| "and_then Undefined k = Undefined"

text \<open>The second loop of the constructor: two queries to the tempo mapper per note, then a push.\<close>

fun push_notes ::
  "('p, 'i) factories \<Rightarrow> ('p, 'i) notation_note list \<Rightarrow> piano_roll \<Rightarrow> tempo
     \<Rightarrow> (piano_roll, tempo) outcome" where
  "push_notes fs [] q tm = Returns q tm"
| "push_notes fs (instr # rest) q tm =
     and_then (tempo_beat_to_time (note_start instr) tm) (\<lambda>start_t tm1.
     and_then (tempo_beat_to_time (note_start instr + note_duration instr) tm1) (\<lambda>end_t tm2.
       push_notes fs rest (roll_push (instruction_ctor fs instr start_t end_t) q) tm2))"

text \<open>
  \<^verbatim>\<open>player::player\<close>. A constructor that throws leaves no object, so the outcome carries the
  player as its value. The default-constructed \<^verbatim>\<open>sound_\<close> is taken to be silence
  (\<^verbatim>\<open>player_sample.hpp\<close> is not among the sources).
\<close>

definition player_ctor :: "('p, 'i) factories \<Rightarrow> ('p, 'i) song \<Rightarrow> (player, unit) outcome" where
  "player_ctor fs sng =
     (case push_notes fs (song_notes sng) [] (fold add_timing (song_timings sng) tempo_init) of
        Returns q tm \<Rightarrow> Returns \<lparr>player_now = tm, roll = q, active = [], sound_field = silence\<rparr> ()
      | Throws e tm \<Rightarrow> Throws e ()
      | Assert_failed \<Rightarrow> Assert_failed
      | Undefined \<Rightarrow> Undefined)"

text \<open>Lines 194 to 200: the top of the roll is moved to the back of the active list if it is due.\<close>

definition promote :: "time \<Rightarrow> piano_roll \<Rightarrow> instruction list \<Rightarrow> piano_roll \<times> instruction list" where
  "promote cur q act =
     (if \<not> roll_empty q then
        (let top_i = hd q
         in if beat (start (bounds top_i)) \<le> beat cur then (tl q, act @ [top_i]) else (q, act))
      else (q, act))"

text \<open>Lines 203 to 211: the erase loop over the active list.\<close>

fun retire :: "time \<Rightarrow> instruction list \<Rightarrow> instruction list" where
  "retire cur [] = []"
| "retire cur (p # ps) =
     (if beat (end_time (bounds p)) < beat cur then retire cur ps else p # retire cur ps)"

text \<open>
  Lines 214 to 221: the sample and the sum \<^verbatim>\<open>normalize\<close> (here \<open>nrm\<close>), accumulated
  over the active list.
\<close>

fun mix :: "time \<Rightarrow> instruction list \<Rightarrow> sample \<times> real \<Rightarrow> sample \<times> real" where
  "mix cur [] (s, nrm) = (s, nrm)"
| "mix cur (p # ps) (s, nrm) =
     (let vol = volume p (bounds p) cur;
          ptch = pitch p (bounds p) cur
      in mix cur ps (sample_add s (instrument p (bounds p) cur vol ptch),
                     nrm + max (right vol) (left vol)))"

definition player_advance :: "real \<Rightarrow> player \<Rightarrow> (unit, player) outcome" where
  "player_advance d p =
     (if \<not> 0 \<le> d then Assert_failed
      else
        case tempo_advance d (player_now p) of
          Throws e tm \<Rightarrow> Throws e (p\<lparr>player_now := tm\<rparr>)
        | Assert_failed \<Rightarrow> Assert_failed
        | Undefined \<Rightarrow> Undefined
        | Returns _ tm \<Rightarrow>
            (let cur = tempo_get tm;
                 (q, act) = promote cur (roll p) (active p);
                 act' = retire cur act;
                 (s, nrm) = mix cur act' (silence, 0);
                 nrm' = max nrm 1
             in Returns () \<lparr>player_now = tm, roll = q, active = act',
                            sound_field = \<lparr>left = left s / nrm', right = right s / nrm'\<rparr>\<rparr>))"

definition sound :: "player \<Rightarrow> sample" where
  "sound p = sound_field p"

text \<open>
  The caller's loop of the class comment: \<open>advance\<close> is called with each step of the list
  in turn and \<open>sound()\<close> is read after each call that returns; the run ends at the first
  call that does not return, with that call's outcome.
\<close>

fun play :: "real list \<Rightarrow> player \<Rightarrow> sample list \<times> (unit, player) outcome" where
  "play [] p = ([], Returns () p)"
| "play (d # ds) p =
     (case player_advance d p of
        Returns _ p' \<Rightarrow> (let (ss, r) = play ds p' in (sound p' # ss, r))
      | r \<Rightarrow> ([], r))"

subsection \<open>Concrete songs\<close>

text \<open>
  The segments of the spec's scenarios: \<open>segment_A\<close> is 4 beats in 2 seconds,
  \<open>segment_B\<close> 4 beats in 1 second. \<open>tempo_A\<close> and \<open>tempo_AB\<close> are tempo mappers in
  their construction state, as the first loop of \<^verbatim>\<open>player::player\<close> leaves them.
\<close>

definition segment_A :: timing where
  "segment_A = constant_timing 4 2"

definition segment_B :: timing where
  "segment_B = constant_timing 4 1"

definition tempo_A :: tempo where
  "tempo_A = fold add_timing [segment_A] tempo_init"

definition tempo_AB :: tempo where
  "tempo_AB = fold add_timing [segment_A, segment_B] tempo_init"

text \<open>
  Factories for examples: a constant pitch, an instrument whose sample is the volume it is
  given, and a volume that is constant at its (start) level.
\<close>

definition unit_factories :: "(unit, unit) factories" where
  "unit_factories =
     \<lparr>pitch_factory = (\<lambda>_ _ _. 440),
      instrument_factory = (\<lambda>_ _ _ vol _. vol),
      volume_factory = (\<lambda>v _ _. case v of simple l r \<Rightarrow> \<lparr>left = l, right = r\<rparr>
                                         | fade l r _ _ \<Rightarrow> \<lparr>left = l, right = r\<rparr>)\<rparr>"

text \<open>The empty song: \<open>segment_A\<close> and no note; \<open>empty_player\<close> is the player built from it.\<close>

definition empty_song :: "(unit, unit) song" where
  "empty_song = \<lparr>song_timings = [segment_A], song_notes = []\<rparr>"

definition empty_player :: player where
  "empty_player = \<lparr>player_now = tempo_A, roll = [], active = [], sound_field = silence\<rparr>"

text \<open>The tempo mapper of \<open>empty_player\<close> as the throw of the twentieth step of 0.1 leaves it.\<close>

definition tempo_A_ended :: tempo where
  "tempo_A_ended =
     \<lparr>timings = [],
      now = \<lparr>t = 0, dt = 1 / 10, beat = 19 / 5, dbeat = 1 / 5\<rparr>,
      global = \<lparr>t = 2, dt = 1 / 10, beat = 19 / 5, dbeat = 1 / 5\<rparr>\<rparr>"

subsection \<open>Predicates used in the properties\<close>

text \<open>
  The premise of the mixer's bound: the sample an instruction's instrument returns at the
  cursor \<open>cur\<close> is, in each channel, at most the larger channel of the volume evaluated
  for that instruction at \<open>cur\<close>.
\<close>

definition sample_within_volume :: "time \<Rightarrow> instruction \<Rightarrow> bool" where
  "sample_within_volume cur p =
     (let vol = volume p (bounds p) cur;
          s = instrument p (bounds p) cur vol (pitch p (bounds p) cur)
      in \<bar>left s\<bar> \<le> max (left vol) (right vol) \<and> \<bar>right s\<bar> \<le> max (left vol) (right vol))"

text \<open>The test of the erase loop.\<close>

definition expired :: "time \<Rightarrow> instruction \<Rightarrow> bool" where
  "expired cur i = (beat (end_time (bounds i)) < beat cur)"

text \<open>The object as a call leaves it, when the call returns or throws.\<close>

fun final_state :: "('a, 's) outcome \<Rightarrow> 's option" where
  "final_state (Returns x s) = Some s"
| "final_state (Throws e s) = Some s"
| "final_state Assert_failed = None"
| "final_state Undefined = None"

text \<open>
  The instruction the constructor makes of a note when both of the note's beats are asked
  of the tempo mapper \<open>s\<close> itself; \<open>None\<close> when one of the two queries throws.
\<close>

definition note_instruction ::
  "('p, 'i) factories \<Rightarrow> tempo \<Rightarrow> ('p, 'i) notation_note \<Rightarrow> instruction option" where
  "note_instruction fs s n =
     (case tempo_beat_to_time (note_start n) s of
        Returns start_t _ \<Rightarrow>
          (case tempo_beat_to_time (note_start n + note_duration n) s of
             Returns end_t _ \<Rightarrow> Some (instruction_ctor fs n start_t end_t)
           | _ \<Rightarrow> None)
      | _ \<Rightarrow> None)"

subsection \<open>Concrete notes and players\<close>

definition note_1 :: "(unit, unit) notation_note" where
  "note_1 = \<lparr>note_pitch = (), note_instrument = (), note_volume = simple (1 / 2) (1 / 4),
             note_start = 0, note_duration = 1\<rparr>"

definition note_2 :: "(unit, unit) notation_note" where
  "note_2 = \<lparr>note_pitch = (), note_instrument = (), note_volume = simple 1 1,
             note_start = 2, note_duration = 1\<rparr>"

definition instruction_1 :: instruction where
  "instruction_1 = instruction_ctor unit_factories note_1 0 (1 / 2)"

definition instruction_2 :: instruction where
  "instruction_2 = instruction_ctor unit_factories note_2 1 (3 / 2)"

text \<open>
  A player over \<open>segment_A\<close> with \<open>note_1\<close> pending, and the same player after
  \<open>advance(0.1)\<close>.
\<close>

definition one_note_player :: player where
  "one_note_player =
     \<lparr>player_now = tempo_A, roll = [instruction_1], active = [], sound_field = silence\<rparr>"

definition one_note_after :: player where
  "one_note_after =
     \<lparr>player_now =
        \<lparr>timings = [segment_A],
         now = \<lparr>t = 1 / 10, dt = 1 / 10, beat = 1 / 5, dbeat = 1 / 5\<rparr>,
         global = \<lparr>t = 1 / 10, dt = 1 / 10, beat = 1 / 5, dbeat = 1 / 5\<rparr>\<rparr>,
      roll = [], active = [instruction_1],
      sound_field = \<lparr>left = 1 / 2, right = 1 / 4\<rparr>\<rparr>"

text \<open>
  A song over \<open>segment_A\<close> and \<open>segment_B\<close> with three notes, given latest first; the
  player built from it, and that player after \<open>advance(0.1)\<close> and after a further
  \<open>advance(1)\<close>.
\<close>

definition note_3 :: "(unit, unit) notation_note" where
  "note_3 = \<lparr>note_pitch = (), note_instrument = (), note_volume = simple (1 / 4) (1 / 2),
             note_start = 3, note_duration = 1\<rparr>"

definition instruction_3 :: instruction where
  "instruction_3 = instruction_ctor unit_factories note_3 (3 / 2) 2"

definition three_note_song :: "(unit, unit) song" where
  "three_note_song =
     \<lparr>song_timings = [segment_A, segment_B], song_notes = [note_3, note_2, note_1]\<rparr>"

definition three_note_player :: player where
  "three_note_player =
     \<lparr>player_now = tempo_AB, roll = [instruction_1, instruction_2, instruction_3],
      active = [], sound_field = silence\<rparr>"

definition three_note_first :: player where
  "three_note_first =
     \<lparr>player_now =
        \<lparr>timings = [segment_A, segment_B],
         now = \<lparr>t = 1 / 10, dt = 1 / 10, beat = 1 / 5, dbeat = 1 / 5\<rparr>,
         global = \<lparr>t = 1 / 10, dt = 1 / 10, beat = 1 / 5, dbeat = 1 / 5\<rparr>\<rparr>,
      roll = [instruction_2, instruction_3], active = [instruction_1],
      sound_field = \<lparr>left = 1 / 2, right = 1 / 4\<rparr>\<rparr>"

definition three_note_second :: player where
  "three_note_second =
     \<lparr>player_now =
        \<lparr>timings = [segment_A, segment_B],
         now = \<lparr>t = 11 / 10, dt = 1, beat = 11 / 5, dbeat = 2\<rparr>,
         global = \<lparr>t = 11 / 10, dt = 1, beat = 11 / 5, dbeat = 2\<rparr>\<rparr>,
      roll = [instruction_3], active = [instruction_2],
      sound_field = \<lparr>left = 1, right = 1\<rparr>\<rparr>"

subsection \<open>The contract of a timing segment and the states the tempo mapper reaches\<close>

text \<open>
  The spec's contract for a segment's \<open>beat_to_time\<close>: the segment has a duration that
  is not negative, the mapping is monotonically increasing on \<open>[0, duration]\<close>, and its
  boundary values are exact (0 at 0, \<open>full_time()\<close> at \<open>duration\<close>).
\<close>

definition beat_to_time_ok :: "timing \<Rightarrow> bool" where
  "beat_to_time_ok seg =
     (0 \<le> duration seg
      \<and> beat_to_time seg 0 = 0
      \<and> beat_to_time seg (duration seg) = full_time seg
      \<and> (\<forall>x y. 0 \<le> x \<and> x \<le> y \<and> y \<le> duration seg
                 \<longrightarrow> beat_to_time seg x \<le> beat_to_time seg y))"

text \<open>
  The contract for \<open>time_to_beat\<close>: strictly increasing on \<open>[0, full_time()]\<close>, with
  exact boundary values (0 at 0, \<open>duration\<close> at \<open>full_time()\<close>).
\<close>

definition time_to_beat_ok :: "timing \<Rightarrow> bool" where
  "time_to_beat_ok seg =
     (0 \<le> full_time seg
      \<and> time_to_beat seg 0 = 0
      \<and> time_to_beat seg (full_time seg) = duration seg
      \<and> (\<forall>x y. 0 \<le> x \<and> x < y \<and> y \<le> full_time seg
                 \<longrightarrow> time_to_beat seg x < time_to_beat seg y))"

text \<open>
  A step \<open>dt\<close> crosses at most one segment boundary: if it leaves the front segment, the
  time carried over into the next segment does not exceed that segment's \<open>full_time()\<close>.
\<close>

definition crosses_at_most_one :: "real \<Rightarrow> tempo \<Rightarrow> bool" where
  "crosses_at_most_one d s =
     (case timings s of
        seg # seg' # _ \<Rightarrow>
          full_time seg \<le> t (now s) + d \<longrightarrow> d - (full_time seg - t (now s)) \<le> full_time seg'
      | _ \<Rightarrow> True)"

text \<open>
  The states of a tempo mapper in use: the construction state over segments that meet the
  \<open>time_to_beat\<close> contract, and every state a returning \<open>advance\<close> with a step that
  crosses at most one boundary leads to.
\<close>

inductive tempo_reachable :: "tempo \<Rightarrow> bool" where
  construct: "list_all time_to_beat_ok segs \<Longrightarrow> tempo_reachable (fold add_timing segs tempo_init)"
| step: "tempo_reachable s \<Longrightarrow> 0 \<le> d \<Longrightarrow> crosses_at_most_one d s \<Longrightarrow>
           tempo_advance d s = Returns () s' \<Longrightarrow> tempo_reachable s'"

text \<open>
  What holds in all those states: the segment-local time lies in the front segment, and the
  segment-local beat is the front segment's beat at that time.
\<close>

definition tempo_inv :: "tempo \<Rightarrow> bool" where
  "tempo_inv s =
     (list_all time_to_beat_ok (timings s)
      \<and> 0 \<le> beat (now s)
      \<and> (case timings s of
           [] \<Rightarrow> True
         | seg # _ \<Rightarrow> 0 \<le> t (now s) \<and> t (now s) \<le> full_time seg
                      \<and> beat (now s) = time_to_beat seg (t (now s))))"

text \<open>\<open>tempo_AB\<close> after \<open>advance(2.5)\<close>, which crosses from \<open>segment_A\<close> into \<open>segment_B\<close>.\<close>

definition tempo_AB_after :: tempo where
  "tempo_AB_after =
     \<lparr>timings = [segment_B],
      now = \<lparr>t = 1 / 2, dt = 5 / 2, beat = 2, dbeat = 6\<rparr>,
      global = \<lparr>t = 5 / 2, dt = 5 / 2, beat = 6, dbeat = 6\<rparr>\<rparr>"

subsection \<open>Double arithmetic\<close>

text \<open>
  Where rounding decides a property, the sums and differences of \<^verbatim>\<open>tempo::advance\<close> are
  taken as the machine computes them. \<open>round_double\<close> is the rounding of a real to the
  nearest \<^verbatim>\<open>double\<close>: 53 significant bits, ties to the even significand, exponent not
  below -1022 (so the subnormal numbers share the spacing of the least normal binade). A
  magnitude of \<open>2^1024\<close> or more, which the machine rounds to infinity, is outside this
  model. \<open>is_double\<close> says that a real is a \<^verbatim>\<open>double\<close>. The exponent is given by a
  logarithm; on a concrete value it is fixed by the two powers of two around the value
  (lemma \<open>round_double_eval\<close>).
\<close>

definition round_half_even :: "real \<Rightarrow> int" where
  "round_half_even y =
     (let f = \<lfloor>y\<rfloor>; r = y - of_int f
      in if r < 1 / 2 then f else if 1 / 2 < r then f + 1 else if even f then f else f + 1)"

definition double_exponent :: "real \<Rightarrow> int" where
  "double_exponent x = max \<lfloor>log 2 \<bar>x\<bar>\<rfloor> (- 1022)"

definition double_ulp :: "real \<Rightarrow> real" where
  "double_ulp x = 2 powr of_int (double_exponent x - 52)"

definition round_double :: "real \<Rightarrow> real" where
  "round_double x =
     (if x = 0 then 0
      else sgn x * (double_ulp x * of_int (round_half_even (\<bar>x\<bar> / double_ulp x))))"


text \<open>
  \<^verbatim>\<open>tempo::advance\<close> once more, line by line as \<open>tempo_advance\<close> above, with every sum
  and difference passed through a rounding \<open>rnd\<close>; the negation and the comparisons
  are exact on the machine as well. With the identity for \<open>rnd\<close> it is \<open>tempo_advance\<close>
  (lemma \<open>tempo_advance_exact\<close>), with \<open>round_double\<close> it is the function as it runs.
  A segment's \<open>time_to_beat\<close> is called as it is; on the values of the examples below
  the products and quotients of \<open>constant_timing\<close> are by powers of two and so are exact
  on the machine too.
\<close>

definition set_beats_rounded :: "(real \<Rightarrow> real) \<Rightarrow> timing \<Rightarrow> time \<Rightarrow> tempo \<Rightarrow> tempo" where
  "set_beats_rounded rnd seg old s =
     (let nb = time_to_beat seg (t (now s));
          db = rnd (nb - beat old)
      in s\<lparr>now := (now s)\<lparr>beat := nb, dbeat := db\<rparr>,
            global := (global s)\<lparr>beat := rnd (beat (global s) + db), dbeat := db\<rparr>\<rparr>)"

definition tempo_advance_rounded ::
  "(real \<Rightarrow> real) \<Rightarrow> real \<Rightarrow> tempo \<Rightarrow> (unit, tempo) outcome" where
  "tempo_advance_rounded rnd d s =
     (if \<not> 0 \<le> d then Assert_failed
      else
        let old = now s;
            s1 = s\<lparr>global := (global s)\<lparr>t := rnd (t (global s) + d), dt := d\<rparr>,
                   now := (now s)\<lparr>t := rnd (t (now s) + d), dt := d\<rparr>\<rparr>
        in case timings s1 of
             [] \<Rightarrow> Undefined
           | seg # rest \<Rightarrow>
               if full_time seg \<le> t (now s1) then
                 let rest_of_t = rnd (full_time seg - t old);
                     rest_of_b = rnd (duration seg - beat old);
                     s2 = s1\<lparr>now := (now s1)\<lparr>t := rnd (d - rest_of_t)\<rparr>, timings := rest\<rparr>;
                     old' = old\<lparr>beat := - rest_of_b\<rparr>
                 in case rest of
                      [] \<Rightarrow> Throws (end_of_song ''Ran out of timing specs!'') s2
                    | seg' # _ \<Rightarrow> Returns () (set_beats_rounded rnd seg' old' s2)
               else Returns () (set_beats_rounded rnd seg old s1))"

definition tempo_advance_double :: "real \<Rightarrow> tempo \<Rightarrow> (unit, tempo) outcome" where
  "tempo_advance_double d s = tempo_advance_rounded round_double d s"




text \<open>
  \<open>segment_C\<close> is 16 beats in 1 second. \<open>tempo_AC_near\<close> is the construction state over
  \<open>segment_A\<close> and \<open>segment_C\<close> after \<open>advance(2 - 2^-52)\<close>, one spacing of doubles
  before the end of \<open>segment_A\<close>; \<open>tempo_AC_back\<close> is that state after a further
  \<open>advance(2^-53 + 2^-60)\<close>, in double arithmetic.
\<close>

definition segment_C :: timing where
  "segment_C = constant_timing 16 1"

definition tempo_AC :: tempo where
  "tempo_AC = fold add_timing [segment_A, segment_C] tempo_init"

definition tempo_AC_near :: tempo where
  "tempo_AC_near =
     \<lparr>timings = [segment_A, segment_C],
      now = \<lparr>t = 2 - 1 / 2 ^ 52, dt = 2 - 1 / 2 ^ 52, beat = 4 - 1 / 2 ^ 51,
              dbeat = 4 - 1 / 2 ^ 51\<rparr>,
      global = \<lparr>t = 2 - 1 / 2 ^ 52, dt = 2 - 1 / 2 ^ 52, beat = 4 - 1 / 2 ^ 51,
                 dbeat = 4 - 1 / 2 ^ 51\<rparr>\<rparr>"

definition tempo_AC_back :: tempo where
  "tempo_AC_back =
     \<lparr>timings = [segment_C],
      now = \<lparr>t = - (127 / 2 ^ 60), dt = 1 / 2 ^ 53 + 1 / 2 ^ 60, beat = - (127 / 2 ^ 56),
              dbeat = - (95 / 2 ^ 56)\<rparr>,
      global = \<lparr>t = 2, dt = 1 / 2 ^ 53 + 1 / 2 ^ 60, beat = 4 - 1 / 2 ^ 49,
                 dbeat = - (95 / 2 ^ 56)\<rparr>\<rparr>"

section \<open>Properties\<close>

lemmas concrete_defs =
  segment_A_def segment_B_def tempo_A_def tempo_AB_def constant_timing_def
  add_timing_def tempo_init_def time0_def

lemmas play_defs =
  empty_player_def player_advance_def tempo_advance_def set_beats_def promote_def
  roll_empty_def tempo_get_def silence_def sound_def Let_def

subsection \<open>The tempo mapper across a segment boundary\<close>

text \<open>
  C3. When \<open>advance(dt)\<close> with \<open>dt \<ge> 0\<close> brings the segment-local time to or beyond the
  front segment's \<open>full_time()\<close> and another segment follows, the call returns, the front
  segment is popped, the segment-local time becomes \<open>dt\<close> minus the seconds that were left
  in the old segment, and the beat delta added to \<open>global.beat\<close> is the new segment's
  \<open>time_to_beat\<close> of the new local time plus the beats that were left in the old segment.
\<close>

theorem tempo_advance_crossing:
  assumes "0 \<le> d"
    and "timings s = seg # seg' # rest"
    and "full_time seg \<le> t (now s) + d"
  shows "\<exists>s'. tempo_advance d s = Returns () s'
           \<and> timings s' = seg' # rest
           \<and> t (now s') = d - (full_time seg - t (now s))
           \<and> beat (now s') = time_to_beat seg' (t (now s'))
           \<and> dbeat (global s') = time_to_beat seg' (t (now s')) + (duration seg - beat (now s))
           \<and> beat (global s') = beat (global s) + dbeat (global s')
           \<and> t (global s') = t (global s) + d"
  using assms by (simp add: tempo_advance_def set_beats_def Let_def)

theorem tempo_advance_crossing_witness:
  "\<exists>s'. tempo_advance (5 / 2) tempo_AB = Returns () s'
      \<and> timings s' = [segment_B] \<and> t (now s') = 1 / 2 \<and> beat (global s') = 6"
proof -
  have "timings tempo_AB = segment_A # segment_B # []"
    and "full_time segment_A \<le> t (now tempo_AB) + 5 / 2"
    and "full_time segment_A = 2" and "duration segment_A = 4"
    and "t (now tempo_AB) = 0" and "beat (now tempo_AB) = 0" and "beat (global tempo_AB) = 0"
    and "\<And>x. time_to_beat segment_B x = x * 4"
    by (simp_all add: concrete_defs)
  with tempo_advance_crossing [of "5 / 2" tempo_AB segment_A segment_B "[]"]
  show ?thesis by auto
qed

subsection \<open>Beats to seconds\<close>

text \<open>
  C4. In the construction state with \<open>segment_A\<close> followed by \<open>segment_B\<close>,
  \<open>beat_to_time(6)\<close> returns 2.5 seconds and \<open>beat_to_time(7)\<close> returns 2.75 seconds:
  the 2 seconds of the skipped \<open>segment_A\<close> plus \<open>segment_B\<close>'s time for the remaining
  2 and 3 beats.
\<close>

theorem beat_to_time_tempo_change:
  "tempo_beat_to_time 6 tempo_AB = Returns (5 / 2) tempo_AB
   \<and> tempo_beat_to_time 7 tempo_AB = Returns (11 / 4) tempo_AB"
  by (simp add: tempo_beat_to_time_def concrete_defs)

text \<open>
  The two throws of \<open>tempo.beat_to_time\<close>. The first is taken exactly when the beat
  asked for is before \<open>global.beat\<close>, and carries that beat. The second is taken exactly
  when it is not and the loop runs out of segments; the value it carries is the beat asked
  for less the beats before the front segment and less the durations of all segments left.
\<close>

lemma walk_Inl:
  "walk segs acc b = Inl e \<Longrightarrow>
     e = invalid_beat (b - sum_list (map duration segs)) ''Beat past end of song.''"
proof (induction segs arbitrary: acc b)
  case Nil
  then show ?case by simp
next
  case (Cons l ls)
  from Cons.prems have "walk ls (acc + full_time l) (b - duration l) = Inl e"
    by (simp split: if_splits)
  from Cons.IH [OF this] show ?case
    by (simp add: diff_diff_add)
qed

lemma beat_in_the_past_iff:
  "(\<exists>s'. tempo_beat_to_time b s = Throws (invalid_beat x ''Beat in the past.'') s')
     \<longleftrightarrow> b < beat (global s) \<and> x = b"
  by (auto simp: tempo_beat_to_time_def split: sum.splits dest: walk_Inl)

lemma beat_past_end_iff:
  "(\<exists>s'. tempo_beat_to_time b s = Throws (invalid_beat x ''Beat past end of song.'') s')
     \<longleftrightarrow> beat (global s) \<le> b
        \<and> (\<exists>e. walk (timings s) (t (global s)) (b - (beat (global s) - beat (now s))) = Inl e)
        \<and> x = b - (beat (global s) - beat (now s)) - sum_list (map duration (timings s))"
  by (auto simp: tempo_beat_to_time_def split: sum.splits dest: walk_Inl)

text \<open>
  C5. The exception thrown when the walk runs out of segments carries the value the
  parameter \<^verbatim>\<open>beat\<close> has after the loop has decremented it, not the beat that was asked
  for: with the single 4-beat \<open>segment_A\<close>, asking for beat 6 throws with the value 2.
\<close>

theorem beat_past_end_carries_residue:
  "tempo_beat_to_time 6 tempo_A = Throws (invalid_beat 2 ''Beat past end of song.'') tempo_A"
  by (simp add: tempo_beat_to_time_def concrete_defs)

subsection \<open>The end of the song\<close>

text \<open>
  C2, as the claim states it, fails: on the empty song the twentieth \<open>advance(0.1)\<close>
  does not return. It brings the segment-local time to 2, the test
  \<^verbatim>\<open>t->full_time() <= now.t\<close> holds, the only segment is popped and \<open>end_of_song\<close> is
  thrown.
\<close>

theorem empty_song_twentieth_advance_throws:
  "player_ctor unit_factories empty_song = Returns empty_player ()
   \<and> snd (play (replicate 20 (1 / 10)) empty_player)
       = Throws (end_of_song ''Ran out of timing specs!'')
           (empty_player\<lparr>player_now := tempo_A_ended\<rparr>)"
  by (simp add: numeral_eq_Suc player_ctor_def empty_song_def play_defs concrete_defs
      tempo_A_ended_def)

text \<open>
  C2, amended. For the player built from the empty song, the first nineteen calls of
  \<open>advance(0.1)\<close> return and \<open>sound()\<close> is \<open>(0, 0)\<close> after each; the twentieth call throws
  \<open>end_of_song\<close>.
\<close>

theorem empty_song_nineteen_advances:
  "player_ctor unit_factories empty_song = Returns empty_player ()
   \<and> play (replicate 20 (1 / 10)) empty_player
       = (replicate 19 silence,
          Throws (end_of_song ''Ran out of timing specs!'')
            (empty_player\<lparr>player_now := tempo_A_ended\<rparr>))"
  by (simp add: numeral_eq_Suc player_ctor_def empty_song_def play_defs concrete_defs
      tempo_A_ended_def)

text \<open>
  \<open>tempo::advance\<close> throws only with the queue emptied, and on an empty queue it reads
  \<^verbatim>\<open>timings.front()\<close>; so does \<open>player::advance\<close>, which hands the call on.
\<close>

lemma tempo_advance_Throws:
  "tempo_advance d s = Throws e s' \<Longrightarrow>
     e = end_of_song ''Ran out of timing specs!'' \<and> timings s' = []"
  by (auto simp: tempo_advance_def Let_def split: if_splits list.splits)

lemma tempo_advance_empty:
  "timings s = [] \<Longrightarrow> tempo_advance d s = (if 0 \<le> d then Undefined else Assert_failed)"
  by (simp add: tempo_advance_def Let_def)

lemma player_advance_after_throw:
  assumes "player_advance d p = Throws e p'"
  shows "player_advance d' p' = (if 0 \<le> d' then Undefined else Assert_failed)"
proof -
  from assms obtain tm where "tempo_advance d (player_now p) = Throws e tm"
    and "p' = p\<lparr>player_now := tm\<rparr>"
    by (auto simp: player_advance_def Let_def split: if_splits outcome.splits prod.splits)
  with tempo_advance_Throws [of d "player_now p" e tm] have "timings (player_now p') = []"
    by simp
  then show ?thesis
    by (simp add: player_advance_def tempo_advance_empty)
qed

text \<open>
  C8. After \<open>advance\<close> has thrown \<open>end_of_song\<close> the queue is empty, and the next call
  reads \<^verbatim>\<open>timings.front()\<close> of the empty list before any test: its behaviour is
  undefined, it does not throw \<open>end_of_song\<close> again.
\<close>

theorem advance_after_end_of_song_undefined:
  "tempo_advance 2 tempo_A
     = Throws (end_of_song ''Ran out of timing specs!'')
         \<lparr>timings = [], now = \<lparr>t = 0, dt = 2, beat = 0, dbeat = 0\<rparr>,
          global = \<lparr>t = 2, dt = 2, beat = 0, dbeat = 0\<rparr>\<rparr>
   \<and> tempo_advance (1 / 10)
         \<lparr>timings = [], now = \<lparr>t = 0, dt = 2, beat = 0, dbeat = 0\<rparr>,
          global = \<lparr>t = 2, dt = 2, beat = 0, dbeat = 0\<rparr>\<rparr>
     = Undefined"
  by (simp add: tempo_advance_def concrete_defs)

subsection \<open>The mixer\<close>

lemma one_note_step: "player_advance (1 / 10) one_note_player = Returns () one_note_after"
  by (simp add: one_note_player_def one_note_after_def instruction_1_def player_advance_def
      tempo_advance_def set_beats_def promote_def roll_empty_def tempo_get_def silence_def
      Let_def concrete_defs instruction_ctor_def unit_factories_def note_1_def time2_def
      sample_add_def)

lemma mix_bound:
  assumes "\<forall>p\<in>set ps. sample_within_volume cur p"
    and "mix cur ps (s, n) = (s', n')"
  shows "n \<le> n' \<and> \<bar>left s'\<bar> \<le> \<bar>left s\<bar> + (n' - n) \<and> \<bar>right s'\<bar> \<le> \<bar>right s\<bar> + (n' - n)"
  using assms
proof (induction ps arbitrary: s n)
  case Nil
  then show ?case by simp
next
  case (Cons p ps)
  define vol where "vol = volume p (bounds p) cur"
  define smp where "smp = instrument p (bounds p) cur vol (pitch p (bounds p) cur)"
  define m where "m = max (right vol) (left vol)"
  have within: "\<bar>left smp\<bar> \<le> m" "\<bar>right smp\<bar> \<le> m"
    using Cons.prems(1)
    by (simp_all add: sample_within_volume_def Let_def vol_def smp_def m_def max.commute)
  have rest: "mix cur ps (sample_add s smp, n + m) = (s', n')"
    using Cons.prems(2) by (simp add: Let_def vol_def smp_def m_def)
  have all: "\<forall>p\<in>set ps. sample_within_volume cur p"
    using Cons.prems(1) by simp
  from Cons.IH [OF all rest]
  have "n + m \<le> n'"
    and "\<bar>left s'\<bar> \<le> \<bar>left (sample_add s smp)\<bar> + (n' - (n + m))"
    and "\<bar>right s'\<bar> \<le> \<bar>right (sample_add s smp)\<bar> + (n' - (n + m))"
    by simp_all
  moreover have "\<bar>left (sample_add s smp)\<bar> \<le> \<bar>left s\<bar> + m"
    and "\<bar>right (sample_add s smp)\<bar> \<le> \<bar>right s\<bar> + m"
    using within by (simp_all add: sample_add_def)
  moreover have "0 \<le> m" using within(1) by linarith
  ultimately show ?case by linarith
qed

lemma normalised_bound:
  fixes x n :: real
  assumes "\<bar>x\<bar> \<le> n"
  shows "\<bar>x / max n 1\<bar> \<le> 1"
proof -
  have pos: "0 < max n 1" by simp
  have "\<bar>x\<bar> \<le> max n 1" using assms by linarith
  then have "\<bar>x\<bar> / max n 1 \<le> 1" using pos by (simp only: divide_le_eq_1_pos)
  moreover have "\<bar>x / max n 1\<bar> = \<bar>x\<bar> / max n 1"
    using pos by (simp only: abs_divide abs_of_pos)
  ultimately show ?thesis by (simp only:)
qed

text \<open>What a call of \<open>player::advance\<close> that returns has done, step by step.\<close>

lemma player_advance_Returns:
  assumes "player_advance d p = Returns () p'"
  obtains tm s n where "tempo_advance d (player_now p) = Returns () tm"
    and "player_now p' = tm"
    and "roll p' = fst (promote (tempo_get tm) (roll p) (active p))"
    and "active p' = retire (tempo_get tm) (snd (promote (tempo_get tm) (roll p) (active p)))"
    and "mix (tempo_get tm) (active p') (silence, 0) = (s, n)"
    and "sound_field p' = \<lparr>left = left s / max n 1, right = right s / max n 1\<rparr>"
proof -
  from assms obtain tm where tm: "tempo_advance d (player_now p) = Returns () tm"
    by (auto simp: player_advance_def split: if_splits outcome.splits)
  define act where "act = retire (tempo_get tm) (snd (promote (tempo_get tm) (roll p) (active p)))"
  obtain s n where sn: "mix (tempo_get tm) act (silence, 0) = (s, n)"
    by (cases "mix (tempo_get tm) act (silence, 0)")
  have "p' = \<lparr>player_now = tm, roll = fst (promote (tempo_get tm) (roll p) (active p)),
              active = act,
              sound_field = \<lparr>left = left s / max n 1, right = right s / max n 1\<rparr>\<rparr>"
    using assms tm sn
    by (auto simp: player_advance_def Let_def act_def split: if_splits prod.splits)
  with tm sn that show thesis
    by (simp add: act_def)
qed

text \<open>
  A call of \<open>player::advance\<close> that throws has not reached the scheduler or the mixer:
  only the tempo mapper has changed.
\<close>

lemma player_advance_Throws:
  "player_advance d p = Throws e p' \<Longrightarrow>
     roll p' = roll p \<and> active p' = active p \<and> sound p' = sound p"
  by (auto simp: player_advance_def sound_def Let_def split: if_splits outcome.splits prod.splits)

text \<open>
  C1. After a call of \<open>Player.advance(dt)\<close> that returns, if the sample of every
  instruction that is active on that tick is within the larger channel of its volume on
  that tick, both channels of the stored sample, which \<open>sound()\<close> returns, are at most 1
  in absolute value.
\<close>

theorem sound_within_unit:
  assumes "player_advance d p = Returns () p'"
    and "\<forall>i\<in>set (active p'). sample_within_volume (tempo_get (player_now p')) i"
  shows "\<bar>left (sound p')\<bar> \<le> 1 \<and> \<bar>right (sound p')\<bar> \<le> 1"
proof -
  from assms(1) obtain tm s n where tm: "player_now p' = tm"
    and sn: "mix (tempo_get tm) (active p') (silence, 0) = (s, n)"
    and snd: "sound_field p' = \<lparr>left = left s / max n 1, right = right s / max n 1\<rparr>"
    by (rule player_advance_Returns)
  have "\<forall>i\<in>set (active p'). sample_within_volume (tempo_get tm) i"
    using assms(2) tm by simp
  from mix_bound [OF this sn] have "\<bar>left s\<bar> \<le> n" "\<bar>right s\<bar> \<le> n"
    by (simp_all add: silence_def)
  then have "\<bar>left s / max n 1\<bar> \<le> 1" and "\<bar>right s / max n 1\<bar> \<le> 1"
    by (simp_all only: normalised_bound)
  then show ?thesis
    unfolding snd sound_def by simp
qed

theorem sound_within_unit_witness:
  "player_advance (1 / 10) one_note_player = Returns () one_note_after
   \<and> active one_note_after = [instruction_1]
   \<and> sample_within_volume (tempo_get (player_now one_note_after)) instruction_1
   \<and> \<bar>left (sound one_note_after)\<bar> \<le> 1 \<and> \<bar>right (sound one_note_after)\<bar> \<le> 1"
proof -
  have act: "active one_note_after = [instruction_1]"
    by (simp add: one_note_after_def)
  have within: "sample_within_volume (tempo_get (player_now one_note_after)) instruction_1"
    by (simp add: one_note_after_def sample_within_volume_def instruction_1_def
        instruction_ctor_def unit_factories_def note_1_def)
  then have "\<forall>i\<in>set (active one_note_after).
      sample_within_volume (tempo_get (player_now one_note_after)) i"
    by (simp add: act)
  from sound_within_unit [OF one_note_step this] one_note_step act within
  show ?thesis by (simp only: simp_thms)
qed

subsection \<open>The scheduler\<close>

lemma retire_filter: "retire cur ps = filter (\<lambda>i. \<not> expired cur i) ps"
  by (induction ps) (simp_all add: expired_def)

lemma set_roll_push: "set (roll_push i q) = insert i (set q)"
  by (induction q) auto

lemma sorted_roll_push:
  "sorted (map start_beat q) \<Longrightarrow> sorted (map start_beat (roll_push i q))"
  by (induction q) (auto simp: set_roll_push ptrcmp_def start_beat_def)

lemma mset_roll_push: "mset (roll_push i q) = add_mset i (mset q)"
  by (induction q) auto

lemma roll_top_least:
  "sorted (map start_beat q) \<Longrightarrow> i \<in> set q \<Longrightarrow> start_beat (hd q) \<le> start_beat i"
  by (cases q) auto

subsection \<open>Queries leave the tempo mapper as it is\<close>

lemma beat_to_time_cases:
  "(\<exists>secs. tempo_beat_to_time b s = Returns secs s)
   \<or> (\<exists>e. tempo_beat_to_time b s = Throws e s)"
  by (simp add: tempo_beat_to_time_def split: sum.split)

text \<open>
  The constructor's loop over the notes: when it returns, the tempo mapper is the one it
  started with and the roll has gained, for each note, the instruction made from the two
  queries on that tempo mapper.
\<close>

lemma push_notes_mset:
  "push_notes fs ns q0 s = Returns q s' \<Longrightarrow>
     s' = s \<and> mset (map Some q) = mset (map Some q0) + mset (map (note_instruction fs s) ns)"
proof (induction ns arbitrary: q0)
  case Nil
  then show ?case by simp
next
  case (Cons n ns)
  from beat_to_time_cases [of "note_start n" s] Cons.prems
  obtain a where a: "tempo_beat_to_time (note_start n) s = Returns a s"
    by auto
  from beat_to_time_cases [of "note_start n + note_duration n" s] Cons.prems a
  obtain b where b: "tempo_beat_to_time (note_start n + note_duration n) s = Returns b s"
    by auto
  from Cons.prems a b
  have "push_notes fs ns (roll_push (instruction_ctor fs n a b) q0) s = Returns q s'"
    by simp
  from Cons.IH [OF this] show ?case
    by (simp add: note_instruction_def a b mset_roll_push)
qed

lemma push_notes_returns:
  "(\<forall>n\<in>set ns. note_instruction fs s n \<noteq> None) \<Longrightarrow> \<exists>q. push_notes fs ns q0 s = Returns q s"
proof (induction ns arbitrary: q0)
  case Nil
  then show ?case by simp
next
  case (Cons n ns)
  from Cons.prems have "note_instruction fs s n \<noteq> None" by simp
  then obtain a b where a: "tempo_beat_to_time (note_start n) s = Returns a s"
    and b: "tempo_beat_to_time (note_start n + note_duration n) s = Returns b s"
    using beat_to_time_cases [of "note_start n" s]
      beat_to_time_cases [of "note_start n + note_duration n" s]
    by (auto simp: note_instruction_def)
  from Cons.prems have "\<forall>n\<in>set ns. note_instruction fs s n \<noteq> None" by simp
  from Cons.IH [OF this, of "roll_push (instruction_ctor fs n a b) q0"]
  show ?case by (simp add: a b)
qed

lemma push_notes_all_some:
  "push_notes fs ns q0 s = Returns q s' \<Longrightarrow> \<forall>n\<in>set ns. note_instruction fs s n \<noteq> None"
proof (induction ns arbitrary: q0)
  case Nil
  then show ?case by simp
next
  case (Cons n ns)
  from beat_to_time_cases [of "note_start n" s] Cons.prems
  obtain a where a: "tempo_beat_to_time (note_start n) s = Returns a s"
    by auto
  from beat_to_time_cases [of "note_start n + note_duration n" s] Cons.prems a
  obtain b where b: "tempo_beat_to_time (note_start n + note_duration n) s = Returns b s"
    by auto
  from Cons.prems a b
  have "push_notes fs ns (roll_push (instruction_ctor fs n a b) q0) s = Returns q s'"
    by simp
  from Cons.IH [OF this] show ?case
    by (simp add: note_instruction_def a b)
qed

lemma push_notes_sorted:
  "sorted (map start_beat q0) \<Longrightarrow> push_notes fs ns q0 s = Returns q s' \<Longrightarrow>
     sorted (map start_beat q)"
proof (induction ns arbitrary: q0)
  case Nil
  then show ?case by simp
next
  case (Cons n ns)
  from beat_to_time_cases [of "note_start n" s] Cons.prems(2)
  obtain a where a: "tempo_beat_to_time (note_start n) s = Returns a s"
    by auto
  from beat_to_time_cases [of "note_start n + note_duration n" s] Cons.prems(2) a
  obtain b where b: "tempo_beat_to_time (note_start n + note_duration n) s = Returns b s"
    by auto
  from Cons.prems(2) a b
  have "push_notes fs ns (roll_push (instruction_ctor fs n a b) q0) s = Returns q s'"
    by simp
  with Cons.IH sorted_roll_push [OF Cons.prems(1)] show ?case
    by blast
qed

text \<open>
  C10. A call of \<open>tempo.beat_to_time\<close> returns or throws, and in both cases leaves the
  tempo mapper (queue, \<open>now\<close>, \<open>global\<close>) exactly as it was. Hence, when the
  constructor's loop over the notes returns, the tempo mapper is unchanged, every
  instruction on the roll carries the times the unchanged mapper gives for its own note,
  and the notes in any other order give a roll with the same instructions.
\<close>

theorem beat_to_time_frame:
  "final_state (tempo_beat_to_time b s) = Some s
   \<and> (\<forall>q s'. push_notes fs ns [] s = Returns q s' \<longrightarrow>
         s' = s
         \<and> mset (map Some q) = mset (map (note_instruction fs s) ns)
         \<and> (\<forall>ns'. mset ns' = mset ns \<longrightarrow>
               (\<exists>q'. push_notes fs ns' [] s = Returns q' s \<and> mset q' = mset q)))"
proof (intro conjI allI impI)
  show "final_state (tempo_beat_to_time b s) = Some s"
    using beat_to_time_cases [of b s] by auto
next
  fix q s' assume r: "push_notes fs ns [] s = Returns q s'"
  from push_notes_mset [OF r] show "s' = s" by simp
next
  fix q s' assume r: "push_notes fs ns [] s = Returns q s'"
  from push_notes_mset [OF r] show "mset (map Some q) = mset (map (note_instruction fs s) ns)"
    by simp
next
  fix q s' ns' assume r: "push_notes fs ns [] s = Returns q s'"
    and perm: "mset ns' = mset ns"
  from push_notes_all_some [OF r] have "\<forall>n\<in>set ns'. note_instruction fs s n \<noteq> None"
    using perm by (metis set_mset_mset)
  from push_notes_returns [OF this, of "[]"]
  obtain q' where q': "push_notes fs ns' [] s = Returns q' s" by blast
  have "mset (map Some q') = mset (map (note_instruction fs s) ns')"
    using push_notes_mset [OF q'] by simp
  also have "\<dots> = mset (map (note_instruction fs s) ns)"
    using perm by (metis mset_map)
  also have "\<dots> = mset (map Some q)"
    using push_notes_mset [OF r] by simp
  finally have "image_mset Some (mset q') = image_mset Some (mset q)"
    by simp
  moreover have "inj (image_mset (Some :: instruction \<Rightarrow> instruction option))"
    by (rule multiset.inj_map) simp
  ultimately have "mset q' = mset q"
    by (rule injD [rotated])
  with q' show "\<exists>q'. push_notes fs ns' [] s = Returns q' s \<and> mset q' = mset q"
    by blast
qed

theorem beat_to_time_frame_witness:
  "final_state (tempo_beat_to_time 6 tempo_A) = Some tempo_A
   \<and> push_notes unit_factories [note_2, note_1] [] tempo_A
       = Returns [instruction_1, instruction_2] tempo_A
   \<and> mset [note_1, note_2] = mset [note_2, note_1]
   \<and> (\<exists>q'. push_notes unit_factories [note_1, note_2] [] tempo_A = Returns q' tempo_A
            \<and> mset q' = mset [instruction_1, instruction_2])"
proof -
  have run: "push_notes unit_factories [note_2, note_1] [] tempo_A
               = Returns [instruction_1, instruction_2] tempo_A"
    by (simp add: tempo_beat_to_time_def concrete_defs note_1_def note_2_def
        instruction_1_def instruction_2_def instruction_ctor_def time2_def ptrcmp_def)
  have perm: "mset [note_1, note_2] = mset [note_2, note_1]"
    by simp
  from beat_to_time_frame [of 6 tempo_A unit_factories "[note_2, note_1]"] run perm
  show ?thesis by blast
qed

subsection \<open>The scheduler on the players the code builds\<close>

text \<open>
  The roll is in ascending start beat when the constructor hands it over, because every
  push inserts by \<open>ptrcmp\<close>, and it stays so under \<open>advance\<close>, which only pops; so on
  every player the constructor and any number of returning calls of \<open>advance\<close> lead to,
  the top of the roll is an instruction of least start beat.
\<close>

lemma player_ctor_sorted:
  "player_ctor fs sng = Returns p u \<Longrightarrow> sorted (map start_beat (roll p))"
  by (auto simp: player_ctor_def split: outcome.splits dest: push_notes_sorted [rotated])

lemma player_advance_sorted:
  assumes "sorted (map start_beat (roll p))" and "player_advance d p = Returns () p'"
  shows "sorted (map start_beat (roll p'))"
proof -
  from assms(2) obtain tm where "roll p' = fst (promote (tempo_get tm) (roll p) (active p))"
    by (rule player_advance_Returns)
  with assms(1) show ?thesis
    by (cases "roll p") (simp_all add: promote_def roll_empty_def Let_def)
qed

lemma play_sorted:
  "sorted (map start_beat (roll p0)) \<Longrightarrow> snd (play ds p0) = Returns () p \<Longrightarrow>
     sorted (map start_beat (roll p))"
proof (induction ds arbitrary: p0)
  case Nil
  then show ?case by simp
next
  case (Cons d ds)
  from Cons.prems(2) obtain p1 where step: "player_advance d p0 = Returns () p1"
    and rest: "snd (play ds p1) = Returns () p"
    by (auto split: outcome.splits prod.splits)
  from Cons.IH [OF player_advance_sorted [OF Cons.prems(1) step] rest] show ?case .
qed

text \<open>
  C9. Let \<open>p\<close> be a player as the constructor and any number of returning calls of
  \<open>advance\<close> leave it, and take a further call of \<open>Player.advance\<close> whose tempo step
  returns, with \<open>cur\<close> the global cursor after that step. The top of the roll is an
  instruction of least start beat. If the roll is not empty and its top starts at or before
  \<open>cur.beat\<close>, exactly that one instruction leaves the roll and is appended to the active
  list; otherwise the roll is unchanged and nothing is appended. In both cases the active
  list is then filtered: exactly the instructions with \<open>bounds.end.beat < cur.beat\<close> are
  dropped.
\<close>

theorem player_advance_schedule:
  assumes "player_ctor fs sng = Returns p0 ()"
    and "snd (play ds p0) = Returns () p"
    and "player_advance d p = Returns () p'"
    and "cur = tempo_get (player_now p')"
  shows "(\<forall>i\<in>set (roll p). start_beat (hd (roll p)) \<le> start_beat i)
       \<and> (\<not> roll_empty (roll p) \<and> start_beat (hd (roll p)) \<le> beat cur
            \<longrightarrow> roll p' = tl (roll p)
                \<and> active p' = filter (\<lambda>i. \<not> expired cur i) (active p @ [hd (roll p)]))
       \<and> (\<not> (\<not> roll_empty (roll p) \<and> start_beat (hd (roll p)) \<le> beat cur)
            \<longrightarrow> roll p' = roll p
                \<and> active p' = filter (\<lambda>i. \<not> expired cur i) (active p))"
proof -
  have "sorted (map start_beat (roll p))"
    by (rule play_sorted [OF player_ctor_sorted [OF assms(1)] assms(2)])
  then have least: "\<forall>i\<in>set (roll p). start_beat (hd (roll p)) \<le> start_beat i"
    by (simp add: roll_top_least)
  from assms(3) obtain tm where p': "player_now p' = tm"
    "roll p' = fst (promote (tempo_get tm) (roll p) (active p))"
    "active p' = retire (tempo_get tm) (snd (promote (tempo_get tm) (roll p) (active p)))"
    by (rule player_advance_Returns)
  have cur: "cur = tempo_get tm" using assms(4) p'(1) by simp
  have due: "\<not> roll_empty (roll p) \<and> start_beat (hd (roll p)) \<le> beat cur
            \<longrightarrow> roll p' = tl (roll p)
                \<and> active p' = filter (\<lambda>i. \<not> expired cur i) (active p @ [hd (roll p)])"
    by (simp add: p'(2,3) cur retire_filter promote_def start_beat_def Let_def)
  have not_due: "\<not> (\<not> roll_empty (roll p) \<and> start_beat (hd (roll p)) \<le> beat cur)
            \<longrightarrow> roll p' = roll p
                \<and> active p' = filter (\<lambda>i. \<not> expired cur i) (active p)"
    by (simp add: p'(2,3) cur retire_filter promote_def start_beat_def Let_def)
  show ?thesis
    by (rule conjI [OF least conjI [OF due not_due]])
qed

text \<open>
  The witness: three notes given latest first. The first step promotes the note that
  starts at beat 0; the second step, at beat 2.2, promotes the note that starts at beat 2
  from a roll of two and drops the first note, which ended at beat 1.
\<close>

lemma three_note_ctor:
  "player_ctor unit_factories three_note_song = Returns three_note_player ()"
  by (simp add: player_ctor_def three_note_song_def three_note_player_def
      tempo_beat_to_time_def concrete_defs note_1_def note_2_def note_3_def
      instruction_1_def instruction_2_def instruction_3_def instruction_ctor_def time2_def
      ptrcmp_def)

lemmas three_note_defs =
  three_note_player_def three_note_first_def three_note_second_def
  instruction_1_def instruction_2_def instruction_3_def instruction_ctor_def
  unit_factories_def note_1_def note_2_def note_3_def time2_def sample_add_def

lemma three_note_first_step:
  "player_advance (1 / 10) three_note_player = Returns () three_note_first"
  by (simp add: three_note_defs player_advance_def tempo_advance_def set_beats_def promote_def
      roll_empty_def tempo_get_def silence_def Let_def concrete_defs)

lemma three_note_second_step:
  "player_advance 1 three_note_first = Returns () three_note_second"
  by (simp add: three_note_defs player_advance_def tempo_advance_def set_beats_def promote_def
      roll_empty_def tempo_get_def silence_def Let_def concrete_defs)

theorem player_advance_schedule_witness:
  "player_ctor unit_factories three_note_song = Returns three_note_player ()
   \<and> snd (play [1 / 10] three_note_player) = Returns () three_note_first
   \<and> player_advance 1 three_note_first = Returns () three_note_second
   \<and> roll three_note_first = [instruction_2, instruction_3]
   \<and> active three_note_first = [instruction_1]
   \<and> start_beat (hd (roll three_note_first)) \<le> start_beat instruction_3
   \<and> start_beat (hd (roll three_note_first))
        \<le> beat (tempo_get (player_now three_note_second))
   \<and> expired (tempo_get (player_now three_note_second)) instruction_1
   \<and> roll three_note_second = tl (roll three_note_first)
   \<and> active three_note_second = [instruction_2]"
proof -
  have run: "snd (play [1 / 10] three_note_player) = Returns () three_note_first"
    by (simp add: three_note_first_step)
  have shape: "roll three_note_first = [instruction_2, instruction_3]"
    "active three_note_first = [instruction_1]"
    "active three_note_second = [instruction_2]"
    by (simp_all add: three_note_first_def three_note_second_def)
  have facts: "\<not> roll_empty (roll three_note_first)"
    "start_beat (hd (roll three_note_first))
       \<le> beat (tempo_get (player_now three_note_second))"
    "expired (tempo_get (player_now three_note_second)) instruction_1"
    by (simp_all add: three_note_first_def three_note_second_def roll_empty_def
        start_beat_def expired_def tempo_get_def instruction_1_def instruction_2_def
        instruction_ctor_def time2_def note_1_def note_2_def)
  have "instruction_3 \<in> set (roll three_note_first)"
    by (simp add: shape)
  with player_advance_schedule [OF three_note_ctor run three_note_second_step refl]
  have "start_beat (hd (roll three_note_first)) \<le> start_beat instruction_3"
    and "roll three_note_second = tl (roll three_note_first)"
    using facts by blast+
  with three_note_ctor run three_note_second_step shape facts
  show ?thesis by (simp only: simp_thms)
qed

subsection \<open>Monotonicity of beats to seconds\<close>




lemma constant_timing_ok:
  assumes "0 < d" and "0 < ft"
  shows "beat_to_time_ok (constant_timing d ft)" and "time_to_beat_ok (constant_timing d ft)"
  using assms
  by (simp_all add: beat_to_time_ok_def time_to_beat_ok_def constant_timing_def
      divide_le_cancel divide_less_cancel)



subsection \<open>Progress of the tempo mapper in exact arithmetic\<close>

lemma fold_add_timing: "fold add_timing segs s = s\<lparr>timings := timings s @ segs\<rparr>"
  by (induction segs arbitrary: s) (simp_all add: add_timing_def)

lemma time_to_beat_strict:
  assumes "time_to_beat_ok seg" and "0 \<le> x" and "x < y" and "y \<le> full_time seg"
  shows "time_to_beat seg x < time_to_beat seg y"
  using assms unfolding time_to_beat_ok_def by blast

lemma time_to_beat_mono:
  assumes "time_to_beat_ok seg" and "0 \<le> x" and "x \<le> y" and "y \<le> full_time seg"
  shows "time_to_beat seg x \<le> time_to_beat seg y"
proof (cases "x = y")
  case True
  then show ?thesis by simp
next
  case False
  with assms(3) have "x < y" by simp
  with assms(1,2,4) have "time_to_beat seg x < time_to_beat seg y"
    by (intro time_to_beat_strict)
  then show ?thesis by simp
qed

lemma time_to_beat_nonneg:
  assumes "time_to_beat_ok seg" and "0 \<le> x" and "x \<le> full_time seg"
  shows "0 \<le> time_to_beat seg x"
  using time_to_beat_mono [OF assms(1) _ assms(2,3)] assms(1)
  by (simp add: time_to_beat_ok_def)

lemma time_to_beat_le_duration:
  assumes "time_to_beat_ok seg" and "0 \<le> x" and "x \<le> full_time seg"
  shows "time_to_beat seg x \<le> duration seg"
  using time_to_beat_mono [OF assms(1,2,3)] assms(1)
  by (simp add: time_to_beat_ok_def)

text \<open>The two ways in which \<open>tempo::advance\<close> returns.\<close>

lemma tempo_advance_Returns:
  assumes "tempo_advance d s = Returns () s'"
  obtains (stays) seg rest where "timings s = seg # rest" and "0 \<le> d"
      and "t (now s) + d < full_time seg"
      and "timings s' = seg # rest"
      and "t (now s') = t (now s) + d"
      and "beat (now s') = time_to_beat seg (t (now s) + d)"
      and "t (global s') = t (global s) + d"
      and "beat (global s') = beat (global s) + (time_to_beat seg (t (now s) + d) - beat (now s))"
    | (crosses) seg seg' rest where "timings s = seg # seg' # rest" and "0 \<le> d"
      and "full_time seg \<le> t (now s) + d"
      and "timings s' = seg' # rest"
      and "t (now s') = d - (full_time seg - t (now s))"
      and "beat (now s') = time_to_beat seg' (d - (full_time seg - t (now s)))"
      and "t (global s') = t (global s) + d"
      and "beat (global s') = beat (global s)
             + (time_to_beat seg' (d - (full_time seg - t (now s))) + (duration seg - beat (now s)))"
proof -
  from assms have d: "0 \<le> d"
    by (auto simp: tempo_advance_def split: if_splits)
  from assms d obtain seg rest where ts: "timings s = seg # rest"
    by (cases "timings s") (auto simp: tempo_advance_def Let_def)
  show thesis
  proof (cases "full_time seg \<le> t (now s) + d")
    case False
    with assms d ts have "s' = set_beats seg (now s)
        (s\<lparr>global := (global s)\<lparr>t := t (global s) + d, dt := d\<rparr>,
           now := (now s)\<lparr>t := t (now s) + d, dt := d\<rparr>\<rparr>)"
      by (simp add: tempo_advance_def Let_def)
    with False d ts show thesis
      by (intro stays [of seg rest]) (simp_all add: set_beats_def Let_def)
  next
    case True
    with assms d ts obtain seg' rest' where rest: "rest = seg' # rest'"
      by (cases rest) (auto simp: tempo_advance_def Let_def)
    with assms d ts True have "set_beats seg' ((now s)\<lparr>beat := - (duration seg - beat (now s))\<rparr>)
        (s\<lparr>global := (global s)\<lparr>t := t (global s) + d, dt := d\<rparr>,
           now := (now s)\<lparr>dt := d, t := d - (full_time seg - t (now s))\<rparr>,
           timings := seg' # rest'\<rparr>) = s'"
      by (simp add: tempo_advance_def Let_def)
    then have "timings s' = seg' # rest'"
      and "t (now s') = d - (full_time seg - t (now s))"
      and "beat (now s') = time_to_beat seg' (d - (full_time seg - t (now s)))"
      and "t (global s') = t (global s) + d"
      and "beat (global s') = beat (global s)
             + (time_to_beat seg' (d - (full_time seg - t (now s))) + (duration seg - beat (now s)))"
      by (auto simp: set_beats_def Let_def)
    with True d ts rest show thesis
      by (intro crosses [of seg seg' rest']) simp_all
  qed
qed

lemma construction_state:
  "fold add_timing segs tempo_init = \<lparr>timings = segs, now = time0, global = time0\<rparr>"
  by (simp add: fold_add_timing tempo_init_def)

lemma tempo_inv_construct:
  assumes "list_all time_to_beat_ok segs"
  shows "tempo_inv (fold add_timing segs tempo_init)"
  unfolding construction_state using assms
  by (cases segs) (simp_all add: tempo_inv_def time0_def time_to_beat_ok_def)

lemma tempo_inv_step:
  assumes "tempo_inv s" and "crosses_at_most_one d s" and "tempo_advance d s = Returns () s'"
  shows "tempo_inv s'"
  using assms(3)
proof (cases rule: tempo_advance_Returns)
  case (stays seg rest)
  from assms(1) stays(1) have ok: "time_to_beat_ok seg" and oks: "list_all time_to_beat_ok rest"
    and t0: "0 \<le> t (now s)"
    by (simp_all add: tempo_inv_def)
  from t0 stays(2,3) have "0 \<le> t (now s) + d" "t (now s) + d \<le> full_time seg" by simp_all
  with time_to_beat_nonneg [OF ok this] ok oks stays(4,5,6) show ?thesis
    by (simp add: tempo_inv_def)
next
  case (crosses seg seg' rest)
  from assms(1) crosses(1) have ok: "time_to_beat_ok seg'" and oks: "list_all time_to_beat_ok rest"
    by (simp_all add: tempo_inv_def)
  from crosses(3) have lo: "0 \<le> d - (full_time seg - t (now s))" by simp
  from assms(2) crosses(1,3) have hi: "d - (full_time seg - t (now s)) \<le> full_time seg'"
    by (simp add: crosses_at_most_one_def)
  from time_to_beat_nonneg [OF ok lo hi] ok oks lo hi crosses(4,5,6) show ?thesis
    by (simp add: tempo_inv_def)
qed

lemma tempo_reachable_inv: "tempo_reachable s \<Longrightarrow> tempo_inv s"
  by (induction rule: tempo_reachable.induct) (auto intro: tempo_inv_construct tempo_inv_step)

lemma tempo_reachable_beat_nonneg: "tempo_reachable s \<Longrightarrow> 0 \<le> beat (now s)"
  by (drule tempo_reachable_inv) (simp add: tempo_inv_def)

text \<open>
  In exact arithmetic: in every state the tempo mapper reaches over segments that meet the
  \<open>time_to_beat\<close> contract, a call of \<open>advance(dt)\<close> with \<open>dt > 0\<close> that crosses at
  most one segment boundary and returns leaves both \<open>get().t\<close> and \<open>get().beat\<close>
  strictly greater than they were. (In double arithmetic this fails, see below.)
\<close>

lemma tempo_advance_strict:
  assumes "tempo_reachable s"
    and "0 < d"
    and "crosses_at_most_one d s"
    and "tempo_advance d s = Returns () s'"
  shows "t (tempo_get s) < t (tempo_get s') \<and> beat (tempo_get s) < beat (tempo_get s')"
  using assms(4)
proof (cases rule: tempo_advance_Returns)
  case (stays seg rest)
  from tempo_reachable_inv [OF assms(1)] stays(1)
  have ok: "time_to_beat_ok seg" and t0: "0 \<le> t (now s)"
    and b: "beat (now s) = time_to_beat seg (t (now s))"
    by (simp_all add: tempo_inv_def)
  from assms(2) stays(3)
  have "time_to_beat seg (t (now s)) < time_to_beat seg (t (now s) + d)"
    by (intro time_to_beat_strict [OF ok t0]) simp_all
  with b stays(7,8) assms(2) show ?thesis
    by (simp add: tempo_get_def)
next
  case (crosses seg seg' rest)
  from tempo_reachable_inv [OF assms(1)] crosses(1)
  have ok: "time_to_beat_ok seg" and ok': "time_to_beat_ok seg'"
    and t0: "0 \<le> t (now s)" and t1: "t (now s) \<le> full_time seg"
    and b: "beat (now s) = time_to_beat seg (t (now s))"
    by (simp_all add: tempo_inv_def)
  define nt where "nt = d - (full_time seg - t (now s))"
  from crosses(3) have lo: "0 \<le> nt" by (simp add: nt_def)
  from assms(3) crosses(1,3) have hi: "nt \<le> full_time seg'"
    by (simp add: crosses_at_most_one_def nt_def)
  have new: "0 \<le> time_to_beat seg' nt"
    by (rule time_to_beat_nonneg [OF ok' lo hi])
  have old: "time_to_beat seg (t (now s)) \<le> duration seg"
    by (rule time_to_beat_le_duration [OF ok t0 t1])
  have "0 < time_to_beat seg' nt + (duration seg - time_to_beat seg (t (now s)))"
  proof (cases "nt = 0")
    case True
    with assms(2) have "t (now s) < full_time seg" by (simp add: nt_def)
    then have "time_to_beat seg (t (now s)) < time_to_beat seg (full_time seg)"
      by (intro time_to_beat_strict [OF ok t0]) simp_all
    with ok have "time_to_beat seg (t (now s)) < duration seg"
      by (simp add: time_to_beat_ok_def)
    with new show ?thesis by simp
  next
    case False
    with lo have "0 < nt" by simp
    with hi have "time_to_beat seg' 0 < time_to_beat seg' nt"
      by (intro time_to_beat_strict [OF ok']) simp_all
    with ok' have "0 < time_to_beat seg' nt" by (simp add: time_to_beat_ok_def)
    with old show ?thesis by simp
  qed
  with b crosses(7,8) assms(2) show ?thesis
    by (simp add: tempo_get_def nt_def)
qed

lemma tempo_advance_strict_example:
  "tempo_reachable tempo_AB \<and> crosses_at_most_one (5 / 2) tempo_AB
   \<and> tempo_advance (5 / 2) tempo_AB = Returns () tempo_AB_after
   \<and> t (tempo_get tempo_AB) < t (tempo_get tempo_AB_after)
   \<and> beat (tempo_get tempo_AB) < beat (tempo_get tempo_AB_after)"
proof -
  have "list_all time_to_beat_ok [segment_A, segment_B]"
    using constant_timing_ok(2) [of 4 2] constant_timing_ok(2) [of 4 1]
    by (simp add: segment_A_def segment_B_def)
  then have reach: "tempo_reachable tempo_AB"
    unfolding tempo_AB_def by (rule tempo_reachable.construct)
  have one: "crosses_at_most_one (5 / 2) tempo_AB"
    by (simp add: crosses_at_most_one_def concrete_defs)
  have run: "tempo_advance (5 / 2) tempo_AB = Returns () tempo_AB_after"
    by (simp add: tempo_advance_def set_beats_def Let_def tempo_AB_after_def concrete_defs)
  have pos: "(0 :: real) < 5 / 2" by simp
  from tempo_advance_strict [OF reach pos one run] reach one run
  show ?thesis by (simp only: simp_thms)
qed

subsection \<open>Rounding to a double\<close>







lemma floor_log2_eq:
  assumes "2 powr of_int e \<le> x" and "x < 2 powr of_int (e + 1)"
  shows "\<lfloor>log 2 x\<rfloor> = e"
proof -
  have pos: "0 < x" using assms(1) powr_gt_zero [of 2 "of_int e"] by linarith
  have "of_int e \<le> log 2 x"
    using assms(1) pos by (simp add: le_log_iff)
  moreover have "log 2 x < of_int (e + 1)"
    using assms(2) pos by (simp add: log_less_iff)
  ultimately show ?thesis by linarith
qed






lemma round_double_pos:
  assumes "0 < x"
  shows "round_double x = double_ulp x * of_int (round_half_even (x / double_ulp x))"
  using assms by (simp add: round_double_def)

lemma round_double_minus: "round_double (- x) = - round_double x"
  by (simp add: round_double_def double_ulp_def double_exponent_def sgn_minus)








lemma round_double_eval:
  assumes "2 powr of_int e \<le> x" and "x < 2 powr of_int (e + 1)" and "- 1022 \<le> e"
  shows "round_double x
           = 2 powr of_int (e - 52) * of_int (round_half_even (x / 2 powr of_int (e - 52)))"
proof -
  have pos: "0 < x" using assms(1) powr_gt_zero [of 2 "of_int e"] by linarith
  have "\<lfloor>log 2 x\<rfloor> = e" by (rule floor_log2_eq [OF assms(1,2)])
  with pos assms(3) have "double_exponent x = e" by (simp add: double_exponent_def)
  then show ?thesis by (simp add: round_double_pos [OF pos] double_ulp_def)
qed




text \<open>
  The rounding on known values: a double is kept; a value half way between two doubles
  goes to the one with the even significand, downwards from \<open>1 + 2^-53\<close> and upwards
  from \<open>1 + 3 * 2^-53\<close>; and the doubles nearest to 0.1 and 0.2 add up to
  0.30000000000000004.
\<close>

lemma round_double_exact_example: "round_double (1 + 1 / 2 ^ 52) = 1 + 1 / 2 ^ 52"
  using round_double_eval [of 0 "1 + 1 / 2 ^ 52"]
  by (simp add: powr_minus round_half_even_def Let_def)

lemma round_double_tie_down: "round_double (1 + 1 / 2 ^ 53) = 1"
  using round_double_eval [of 0 "1 + 1 / 2 ^ 53"]
  by (simp add: powr_minus round_half_even_def Let_def)

lemma round_double_tie_up: "round_double (1 + 3 / 2 ^ 53) = 1 + 2 / 2 ^ 52"
  using round_double_eval [of 0 "1 + 3 / 2 ^ 53"]
  by (simp add: powr_minus round_half_even_def Let_def)

lemma round_double_tenth_plus_fifth: "round_double (3602879701896397 / 2 ^ 55 + 3602879701896397 / 2 ^ 54)
    = 5404319552844596 / 2 ^ 54"
  using round_double_eval [of "-2" "3602879701896397 / 2 ^ 55 + 3602879701896397 / 2 ^ 54"]
  by (simp add: powr_minus round_half_even_def Let_def)

subsection \<open>Progress of the tempo mapper in double arithmetic\<close>

lemma set_beats_exact: "set_beats_rounded (\<lambda>x. x) seg old s = set_beats seg old s"
  by (simp add: set_beats_def set_beats_rounded_def)

lemma tempo_advance_exact: "tempo_advance_rounded (\<lambda>x. x) d s = tempo_advance d s"
  by (simp add: tempo_advance_def tempo_advance_rounded_def set_beats_exact Let_def
      split: list.split)









text \<open>
  The beat of a call that crosses a boundary is left out above, because there it can
  decrease. One spacing before the end of \<open>segment_A\<close>, the step \<open>2^-53 + 2^-60\<close> is
  rounded up to the boundary, the time left in the segment (\<open>2^-52\<close>) exceeds the step,
  the carry-over \<^verbatim>\<open>dt - rest_of_t\<close> is negative, and \<open>global.beat\<close> falls from
  \<open>4 - 2^-51\<close> to \<open>4 - 2^-49\<close>. (The numerals of \<open>near_values\<close> and \<open>back_values\<close>
  are \<open>2 - 2^-52\<close>, \<open>4 - 2^-51\<close>; \<open>2 - 2^-53 + 2^-60\<close>, \<open>2^-52\<close>, \<open>2^-51\<close>,
  \<open>127 * 2^-60\<close>, \<open>95 * 2^-56\<close>, and \<open>4 - 2^-51 - 95 * 2^-56\<close>, which rounds to
  \<open>4 - 2^-49\<close>.)
\<close>

lemmas eval_simps = powr_minus round_half_even_def Let_def

lemma near_values:
  "round_double (9007199254740991 / 4503599627370496) = 9007199254740991 / 4503599627370496"
  "round_double (9007199254740991 / 2251799813685248) = 9007199254740991 / 2251799813685248"
  using round_double_eval [of 0 "9007199254740991 / 4503599627370496"]
    round_double_eval [of 1 "9007199254740991 / 2251799813685248"]
  by (simp_all add: eval_simps)

lemma back_values:
  "round_double (2305843009213693825 / 1152921504606846976) = 2"
  "round_double (1 / 4503599627370496) = 1 / 4503599627370496"
  "round_double (1 / 2251799813685248) = 1 / 2251799813685248"
  "round_double (127 / 1152921504606846976) = 127 / 1152921504606846976"
  "round_double (95 / 72057594037927936) = 95 / 72057594037927936"
  "round_double (288230376151711617 / 72057594037927936)
     = 2251799813685247 / 562949953421312"
  using round_double_eval [of 0 "2305843009213693825 / 1152921504606846976"]
    round_double_eval [of "- 52" "1 / 4503599627370496"]
    round_double_eval [of "- 51" "1 / 2251799813685248"]
    round_double_eval [of "- 54" "127 / 1152921504606846976"]
    round_double_eval [of "- 50" "95 / 72057594037927936"]
    round_double_eval [of 1 "288230376151711617 / 72057594037927936"]
  by (simp_all add: eval_simps)

lemma double_near_step:
  "tempo_advance_double (2 - 1 / 2 ^ 52) tempo_AC = Returns () tempo_AC_near"
  by (simp add: tempo_advance_double_def tempo_advance_rounded_def set_beats_rounded_def
      Let_def tempo_AC_def tempo_AC_near_def segment_C_def concrete_defs near_values)

lemma double_back_step:
  "tempo_advance_double (1 / 2 ^ 53 + 1 / 2 ^ 60) tempo_AC_near = Returns () tempo_AC_back"
  by (simp add: tempo_advance_double_def tempo_advance_rounded_def set_beats_rounded_def
      Let_def tempo_AC_near_def tempo_AC_back_def segment_C_def concrete_defs back_values
      round_double_minus)

lemma beat_decreases_at_boundary:
  "tempo_advance_double (2 - 1 / 2 ^ 52) tempo_AC = Returns () tempo_AC_near
   \<and> tempo_advance_double (1 / 2 ^ 53 + 1 / 2 ^ 60) tempo_AC_near = Returns () tempo_AC_back
   \<and> beat (tempo_get tempo_AC_back) < beat (tempo_get tempo_AC_near)"
  by (intro conjI double_near_step double_back_step)
     (simp add: tempo_get_def tempo_AC_near_def tempo_AC_back_def)

end
